theory Spec2Isabelle
  imports Main "HOL-Library.AList" "HOL-Library.Sublist"
begin

section \<open>JavaScript values the router handles\<close>

text \<open>
  The model follows \<^verbatim>\<open>src/detour.ts\<close>. A JavaScript object used as a dictionary is an
  association list in key insertion order; \<^verbatim>\<open>obj[key] = v\<close> is \<^const>\<open>AList.update\<close>
  (a new key goes last, an old key keeps its place) and \<^verbatim>\<open>obj[key]\<close> is \<^const>\<open>map_of\<close>
  (\<^const>\<open>None\<close> for \<^verbatim>\<open>undefined\<close>). Properties inherited from a prototype are not
  modelled.
\<close>

type_synonym 'a obj = "(string \<times> 'a) list"

text \<open>
  A value that is thrown, or that a promise is rejected with. JavaScript lets any value
  be one. The handlers of \<^verbatim>\<open>computeOutlet\<close> only ever read its \<^verbatim>\<open>stack\<close> property, so the
  model keeps what that read does: on \<^verbatim>\<open>undefined\<close> and \<^verbatim>\<open>null\<close> the read itself throws a
  \<^verbatim>\<open>TypeError\<close>; on any other value it gives the stack trace of an \<^verbatim>\<open>Error\<close> object, or
  \<^verbatim>\<open>undefined\<close> (\<^const>\<open>None\<close>) for a value that has no such property.
\<close>

datatype reason = Nullish | NonNull (stack: "string option")

definition TypeError :: reason where
  "TypeError = NonNull (Some ''TypeError'')"

text \<open>
  How a promise ends: fulfilled with a value, rejected with a reason at some instant
  (the instant only orders the rejections that \<^verbatim>\<open>Promise.all\<close> races), or never settled.
\<close>

datatype 'a settlement = Fulfilled 'a | Rejected nat reason | Pending

text \<open>\<^verbatim>\<open>promise.then(f)\<close> for a callback \<open>f\<close> that does not throw.\<close>

fun then_map :: "('a \<Rightarrow> 'b) \<Rightarrow> 'a settlement \<Rightarrow> 'b settlement" where
  "then_map f (Fulfilled v) = Fulfilled (f v)"
| "then_map f (Rejected t r) = Rejected t r"
| "then_map f Pending = Pending"

text \<open>
  \<^verbatim>\<open>Promise.all\<close>: rejected with the reason of the input that rejects first (the lowest
  index among equal instants), whatever the other inputs do; otherwise fulfilled with
  all the values in index order once every input is fulfilled; otherwise pending.
\<close>

fun firstRejected :: "'a settlement list \<Rightarrow> (nat \<times> reason) option" where
  "firstRejected [] = None"
| "firstRejected (Rejected t r # ps) =
     (case firstRejected ps of
        None \<Rightarrow> Some (t, r)
      | Some (t', r') \<Rightarrow> if t' < t then Some (t', r') else Some (t, r))"
| "firstRejected (Fulfilled v # ps) = firstRejected ps"
| "firstRejected (Pending # ps) = firstRejected ps"

fun allFulfilled :: "'a settlement list \<Rightarrow> 'a list option" where
  "allFulfilled [] = Some []"
| "allFulfilled (Fulfilled v # ps) = map_option ((#) v) (allFulfilled ps)"
| "allFulfilled (Rejected t r # ps) = None"
| "allFulfilled (Pending # ps) = None"

definition Promise_all :: "'a settlement list \<Rightarrow> 'a list settlement" where
  "Promise_all ps =
     (case firstRejected ps of
        Some (t, r) \<Rightarrow> Rejected t r
      | None \<Rightarrow> (case allFulfilled ps of Some vs \<Rightarrow> Fulfilled vs | None \<Rightarrow> Pending))"

section \<open>Route handlers\<close>

text \<open>
  \<^verbatim>\<open>pathToRegexp\<close> is the external package \<^verbatim>\<open>path-to-regexp\<close>; it is a parameter of the
  model. What it returns is a regular expression with a \<^verbatim>\<open>keys\<close> array: \<open>exec\<close> is
  \<^verbatim>\<open>RegExp.prototype.exec\<close> (\<^const>\<open>None\<close> for \<^verbatim>\<open>null\<close>; otherwise the matched text and the
  capture groups, \<^const>\<open>None\<close> for a group that did not take part), \<open>keys\<close> lists
  \<^verbatim>\<open>keys[i].name\<close>. The expression has no \<^verbatim>\<open>g\<close> or \<^verbatim>\<open>y\<close> flag, so \<open>exec\<close> is a function of
  the string alone and \<^verbatim>\<open>test\<close> is, as ECMAScript defines it, whether \<open>exec\<close> is not
  \<^verbatim>\<open>null\<close>.
\<close>

record PathRegExp =
  exec :: "string \<Rightarrow> (string \<times> string option list) option"
  keys :: "string list"

definition test :: "PathRegExp \<Rightarrow> string \<Rightarrow> bool" where
  "test re s = (exec re s \<noteq> None)"

text \<open>
  A component thunk is user code of type \<^verbatim>\<open>() => IntoPromise<ComponentType<any>>\<close>: what one
  call of it gives depends on the world \<open>'w\<close> the call is made in. It returns, as its type
  says, a component or a promise of one; \<^verbatim>\<open>Promise.resolve\<close> makes either a promise, whose
  end the model records. The field \<open>end_opt\<close> is the user's \<^verbatim>\<open>end\<close>: a boolean, or
  \<^const>\<open>None\<close> when \<^verbatim>\<open>typeof end\<close> is not \<^verbatim>\<open>'boolean'\<close>.
\<close>

type_synonym ('w, 'c) thunk = "'w \<Rightarrow> 'c settlement"

datatype ('w, 'c) handler_component =
    Single "('w, 'c) thunk"
  | Named "(string \<times> ('w, 'c) thunk) list"

record ('w, 'c) UserRouteHandler =
  path :: string
  end_opt :: "bool option"
  component :: "('w, 'c) handler_component"

record ('w, 'c) RouteHandler =
  pathRegExp :: PathRegExp
  getComponents :: "'w \<Rightarrow> 'c obj settlement"

text \<open>\<^verbatim>\<open>keys.map(key => Promise.resolve(component[key]()))\<close>\<close>

definition callThunks :: "(string \<times> ('w, 'c) thunk) list \<Rightarrow> 'w \<Rightarrow> 'c settlement list" where
  "callThunks kts w = map (\<lambda>(key, thunk). thunk w) kts"

text \<open>\<^verbatim>\<open>keys.forEach((key, i) => componentsMap[key] = components[i])\<close>\<close>

definition toComponentsMap :: "string list \<Rightarrow> 'c list \<Rightarrow> 'c obj" where
  "toComponentsMap ks components =
     fold (\<lambda>(key, c) componentsMap. AList.update key c componentsMap) (zip ks components) []"

definition toRouteHandler ::
  "(string \<Rightarrow> bool \<Rightarrow> PathRegExp) \<Rightarrow> ('w, 'c) UserRouteHandler \<Rightarrow> ('w, 'c) RouteHandler" where
  "toRouteHandler pathToRegexp u =
     \<lparr> pathRegExp =
         pathToRegexp (path u) (case end_opt u of Some b \<Rightarrow> b | None \<Rightarrow> path u = ''/''),
       getComponents = (\<lambda>w.
         case component u of
           Single thunk \<Rightarrow>
             then_map (\<lambda>defaultComponent. [(''default'', defaultComponent)]) (thunk w)
         | Named kts \<Rightarrow>
             then_map (toComponentsMap (map fst kts)) (Promise_all (callThunks kts w))) \<rparr>"

text \<open>\<^verbatim>\<open>static routeHandlers = userRouteHandlers.map(toRouteHandler)\<close>: the table keeps the
  order the user gave.\<close>

definition RouteOutlet_routeHandlers ::
  "(string \<Rightarrow> bool \<Rightarrow> PathRegExp) \<Rightarrow> ('w, 'c) UserRouteHandler list
     \<Rightarrow> ('w, 'c) RouteHandler list" where
  "RouteOutlet_routeHandlers pathToRegexp userRouteHandlers =
     map (toRouteHandler pathToRegexp) userRouteHandlers"

section \<open>Elements\<close>

text \<open>
  The two elements \<^verbatim>\<open>computeOutlet\<close> creates: \<^verbatim>\<open>createElement(components[key], params)\<close> and,
  around it, \<^verbatim>\<open>createElement(PathProvider, { path }, element)\<close>.
\<close>

datatype 'c element =
    Element 'c "string option obj"
  | PathProvider string "'c element"

definition createElement :: "'c \<Rightarrow> string option obj \<Rightarrow> 'c element" where
  "createElement c params = Element c params"

definition providePath :: "string \<Rightarrow> 'c element \<Rightarrow> 'c element" where
  "providePath p element = PathProvider p element"


section \<open>The route outlet\<close>

text \<open>
  \<^verbatim>\<open>computeOutlet\<close> leaves a promise chain behind: the promise of \<^verbatim>\<open>getComponents()\<close> with
  the \<^verbatim>\<open>then\<close> and the \<^verbatim>\<open>catch\<close> callback, which close over \<^verbatim>\<open>zoneID\<close>, \<^verbatim>\<open>path\<close> and
  \<^verbatim>\<open>routeHandler\<close>. A task is one such chain; \<open>promise\<close> is the promise its next callback
  waits for.
\<close>

record ('w, 'c) task =
  zoneID :: nat
  taskPath :: string
  routeHandler :: "('w, 'c) RouteHandler"
  promise :: "'c obj settlement"

text \<open>
  The component instance and what surrounds it: the field \<^verbatim>\<open>currentZoneID\<close> (a JavaScript
  number that only ever counts up by one from 0, exact below \<open>2^53\<close>, modelled as a natural
  number), \<^verbatim>\<open>state.outlets\<close>, the arguments \<^verbatim>\<open>console.error\<close> was called with, the promise
  chains in flight, and the rejections nothing handled, at the end of a chain.
\<close>

record ('w, 'c) RouteOutlet =
  currentZoneID :: nat
  outlets :: "'c element obj"
  console :: "string option list"
  tasks :: "('w, 'c) task list"
  uncaught :: "reason list"

definition initial :: "('w, 'c) RouteOutlet" where
  "initial = \<lparr> currentZoneID = 0, outlets = [], console = [], tasks = [], uncaught = [] \<rparr>"

text \<open>
  \<^verbatim>\<open>matches.forEach((match, i) => params[routeHandler.pathRegExp.keys[i].name] = match)\<close>:
  a capture beyond the last key reads \<^verbatim>\<open>name\<close> of \<^verbatim>\<open>undefined\<close>, a \<^verbatim>\<open>TypeError\<close>.
  A capture is a string or \<^verbatim>\<open>undefined\<close>, and assigning one to \<^verbatim>\<open>__proto__\<close> of a plain
  object creates no property and changes nothing.
\<close>

fun setParams ::
  "string list \<Rightarrow> string option list \<Rightarrow> string option obj \<Rightarrow> reason + string option obj" where
  "setParams ks [] params = Inr params"
| "setParams [] (m # ms) params = Inl TypeError"
| "setParams (k # ks) (m # ms) params =
     setParams ks ms (if k = ''__proto__'' then params else AList.update k m params)"

text \<open>
  \<^verbatim>\<open>Object.keys(components).forEach(key => { outlets[key] = providePath(pathRest,
  createElement(components[key], params)) })\<close>
\<close>

definition setOutlets :: "string \<Rightarrow> string option obj \<Rightarrow> 'c obj \<Rightarrow> 'c element obj" where
  "setOutlets pathRest params components =
     fold (\<lambda>(key, c) outlets. AList.update key (providePath pathRest (createElement c params)) outlets)
       components []"

text \<open>
  The \<^verbatim>\<open>then\<close> callback of \<^verbatim>\<open>computeOutlet\<close>. \<^const>\<open>Inl\<close>: the callback throws (destructuring
  \<^verbatim>\<open>null\<close> when \<open>exec\<close> finds no match, or \<^const>\<open>setParams\<close>), before it changes anything.
\<close>

definition onFulfilled ::
  "nat \<Rightarrow> string \<Rightarrow> ('w, 'c) RouteHandler \<Rightarrow> 'c obj \<Rightarrow> ('w, 'c) RouteOutlet
     \<Rightarrow> reason + ('w, 'c) RouteOutlet" where
  "onFulfilled zone p h components s =
     (if zone \<noteq> currentZoneID s then Inr s
      else
        (case exec (pathRegExp h) p of
           None \<Rightarrow> Inl TypeError
         | Some (match, matches) \<Rightarrow>
             (let pathRest = drop (length match) p in
              case setParams (keys (pathRegExp h)) matches [] of
                Inl e \<Rightarrow> Inl e
              | Inr params \<Rightarrow> Inr (s\<lparr>outlets := setOutlets pathRest params components\<rparr>))))"

text \<open>
  The \<^verbatim>\<open>catch\<close> callback. Its first statement is \<^verbatim>\<open>console.error(error.stack)\<close>: reading
  \<^verbatim>\<open>stack\<close> of \<^verbatim>\<open>undefined\<close> or \<^verbatim>\<open>null\<close> throws before anything is printed (\<^const>\<open>Inl\<close>).
\<close>

definition onRejected ::
  "nat \<Rightarrow> reason \<Rightarrow> ('w, 'c) RouteOutlet \<Rightarrow> reason + ('w, 'c) RouteOutlet" where
  "onRejected zone err s =
     (case err of
        Nullish \<Rightarrow> Inl TypeError
      | NonNull st \<Rightarrow>
          (let s1 = s\<lparr>console := console s @ [st]\<rparr> in
           if zone \<noteq> currentZoneID s1 then Inr s1 else Inr (s1\<lparr>outlets := []\<rparr>)))"

text \<open>\<^verbatim>\<open>routeHandlers.find(({ pathRegExp }) => pathRegExp.test(path))\<close>\<close>

definition findRouteHandler ::
  "('w, 'c) RouteHandler list \<Rightarrow> string \<Rightarrow> ('w, 'c) RouteHandler option" where
  "findRouteHandler routeHandlers p = find (\<lambda>h. test (pathRegExp h) p) routeHandlers"

text \<open>
  The synchronous part of \<^verbatim>\<open>computeOutlet\<close>: up to the call of \<^verbatim>\<open>getComponents()\<close>, whose
  promise and callbacks it leaves as a task.
\<close>

definition computeOutlet ::
  "('w, 'c) RouteHandler list \<Rightarrow> 'w \<Rightarrow> string \<Rightarrow> ('w, 'c) RouteOutlet \<Rightarrow> ('w, 'c) RouteOutlet" where
  "computeOutlet routeHandlers w p s =
     (let zone = currentZoneID s + 1;
          s1 = s\<lparr>currentZoneID := zone\<rparr>
      in case findRouteHandler routeHandlers p of
           None \<Rightarrow> s1\<lparr>outlets := []\<rparr>
         | Some h \<Rightarrow>
             s1\<lparr>tasks := tasks s1 @
               [\<lparr> zoneID = zone, taskPath = p, routeHandler = h, promise = getComponents h w \<rparr>]\<rparr>)"

text \<open>
  The promise chain of session \<open>z\<close> moves on by one callback. A pending promise runs
  nothing. When the \<^verbatim>\<open>then\<close> callback throws, the chain goes on to \<^verbatim>\<open>catch\<close> with what was
  thrown; when the \<^verbatim>\<open>catch\<close> callback throws, nothing is left to handle it.
\<close>

definition settle :: "nat \<Rightarrow> ('w, 'c) RouteOutlet \<Rightarrow> ('w, 'c) RouteOutlet" where
  "settle z s =
     (case find (\<lambda>t. zoneID t = z) (tasks s) of
        None \<Rightarrow> s
      | Some t \<Rightarrow>
          (case promise t of
             Pending \<Rightarrow> s
           | Fulfilled components \<Rightarrow>
               (case onFulfilled (zoneID t) (taskPath t) (routeHandler t) components s of
                  Inr s' \<Rightarrow> s'\<lparr>tasks := filter (\<lambda>t'. zoneID t' \<noteq> z) (tasks s')\<rparr>
                | Inl e \<Rightarrow>
                    s\<lparr>tasks := map (\<lambda>t'. if zoneID t' = z then t'\<lparr>promise := Rejected 0 e\<rparr> else t')
                       (tasks s)\<rparr>)
           | Rejected i e \<Rightarrow>
               (case onRejected (zoneID t) e s of
                  Inr s' \<Rightarrow> s'\<lparr>tasks := filter (\<lambda>t'. zoneID t' \<noteq> z) (tasks s')\<rparr>
                | Inl e' \<Rightarrow>
                    s\<lparr>tasks := filter (\<lambda>t'. zoneID t' \<noteq> z) (tasks s),
                      uncaught := uncaught s @ [e']\<rparr>)))"

text \<open>
  What happens to one instance: \<^verbatim>\<open>componentDidMount\<close> and \<^verbatim>\<open>componentWillReceiveProps\<close> call
  \<^verbatim>\<open>computeOutlet\<close> with the path of the context, and the event loop runs the callbacks of
  settled promises, in any order and at any later time.
\<close>

datatype 'w event = ComputeOutlet string 'w | Settle nat

fun step :: "('w, 'c) RouteHandler list \<Rightarrow> 'w event \<Rightarrow> ('w, 'c) RouteOutlet \<Rightarrow> ('w, 'c) RouteOutlet" where
  "step hs (ComputeOutlet p w) s = computeOutlet hs w p s"
| "step hs (Settle z) s = settle z s"

definition run ::
  "('w, 'c) RouteHandler list \<Rightarrow> 'w event list \<Rightarrow> ('w, 'c) RouteOutlet \<Rightarrow> ('w, 'c) RouteOutlet" where
  "run hs es s = fold (step hs) es s"

text \<open>The chains in flight carry different session identifiers, none above the counter.\<close>

definition wellformed :: "('w, 'c) RouteOutlet \<Rightarrow> bool" where
  "wellformed s \<longleftrightarrow>
     distinct (map zoneID (tasks s)) \<and> list_all (\<lambda>t. zoneID t \<le> currentZoneID s) (tasks s)"

text \<open>
  \<^verbatim>\<open>render\<close>: \<^verbatim>\<open>createElement(component, Object.assign({}, this.props, { outlets }),
  outlets['default'])\<close>. The element is the composed component, the instance's own props,
  the \<^verbatim>\<open>outlets\<close> prop (which replaces a prop of that name) and the child argument,
  \<^const>\<open>None\<close> when \<^verbatim>\<open>outlets['default']\<close> is \<^verbatim>\<open>undefined\<close>.
\<close>

record ('p, 'c) composed =
  composedType :: 'c
  ownProps :: 'p
  outletsProp :: "'c element obj"
  children :: "'c element option"

definition render :: "'c \<Rightarrow> 'p \<Rightarrow> ('w, 'c) RouteOutlet \<Rightarrow> ('p, 'c) composed" where
  "render c props s =
     \<lparr> composedType = c, ownProps = props, outletsProp = outlets s,
       children = map_of (outlets s) ''default'' \<rparr>"

section \<open>Example routes\<close>

text \<open>
  Stand-ins for what \<^verbatim>\<open>pathToRegexp\<close> returns, for the closed instances below: the
  expression of a literal path (anchored at the start; with \<^verbatim>\<open>end\<close> it takes the whole
  string, without it a prefix that ends at a \<^verbatim>\<open>/\<close> or at the end), and the expression
  of a path of named segments such as \<^verbatim>\<open>/:a/:b\<close>.
\<close>

definition literalRegExp :: "string \<Rightarrow> bool \<Rightarrow> PathRegExp" where
  "literalRegExp l e =
     \<lparr> exec = (\<lambda>s.
         if (if e then s = l
             else prefix l s \<and> (drop (length l) s = [] \<or> hd (drop (length l) s) = CHR ''/''))
         then Some (l, []) else None),
       keys = [] \<rparr>"



text \<open>The routes of the test \<^verbatim>\<open>withRoutes will allow for not found routes\<close>, with a
  catch-all expression for \<^verbatim>\<open>/*\<close>.\<close>

definition routeA :: "(bool, string) RouteHandler" where
  "routeA = toRouteHandler literalRegExp
     \<lparr> path = ''/a'', end_opt = None, component = Single (\<lambda>w. Fulfilled ''A'') \<rparr>"

definition routeStar :: "(bool, string) RouteHandler" where
  "routeStar = toRouteHandler (\<lambda>p e. \<lparr> exec = (\<lambda>s. if prefix ''/'' s then Some (s, [Some (drop 1 s)]) else None), keys = [''0''] \<rparr>)
     \<lparr> path = ''/*'', end_opt = None, component = Single (\<lambda>w. Fulfilled ''B'') \<rparr>"

definition routeC :: "(bool, string) RouteHandler" where
  "routeC = toRouteHandler literalRegExp
     \<lparr> path = ''/c'', end_opt = None, component = Single (\<lambda>w. Fulfilled ''C'') \<rparr>"





text \<open>A route whose thunk returns \<^verbatim>\<open>Promise.reject(undefined)\<close>.\<close>

definition routeUndefined :: "(bool, string) RouteHandler" where
  "routeUndefined = toRouteHandler literalRegExp
     \<lparr> path = ''/b'', end_opt = None, component = Single (\<lambda>w. Rejected 0 Nullish) \<rparr>"


text \<open>
  Two calls in a row, \<^verbatim>\<open>/a\<close> then \<^verbatim>\<open>/c\<close>; the components of \<^verbatim>\<open>/c\<close> arrive first.
\<close>

definition lateA :: "(bool, string) RouteOutlet" where
  "lateA = run [routeA, routeC] [Settle 2]
     (computeOutlet [routeA, routeC] True ''/c''
       (run [routeA, routeC] [] (computeOutlet [routeA, routeC] True ''/a'' initial)))"

section \<open>Pattern compilation\<close>

text \<open>
  C6. \<^verbatim>\<open>toRouteHandler\<close> compiles the path with the user's \<^verbatim>\<open>end\<close> flag when it is a
  boolean; when it is not given, the flag is true exactly when the path is \<^verbatim>\<open>/\<close>, and
  false for every other path.
\<close>

theorem toRouteHandler_end_flag:
  "pathRegExp (toRouteHandler pathToRegexp \<lparr> path = p, end_opt = Some b, component = cmp \<rparr>)
     = pathToRegexp p b
   \<and> pathRegExp (toRouteHandler pathToRegexp \<lparr> path = p, end_opt = None, component = cmp \<rparr>)
     = pathToRegexp p (p = ''/'')
   \<and> pathRegExp (toRouteHandler pathToRegexp \<lparr> path = ''/'', end_opt = None, component = cmp \<rparr>)
     = pathToRegexp ''/'' True"
  by (simp add: toRouteHandler_def)

section \<open>Loading the components of a route\<close>

text \<open>
  C8. For a route whose component is a single thunk, the promise of \<^verbatim>\<open>getComponents()\<close>
  ends as the thunk's promise does, and when that is fulfilled with a view the
  components map is the one-entry map \<^verbatim>\<open>{ default: view }\<close>.
\<close>

theorem getComponents_single_default:
  "getComponents (toRouteHandler pathToRegexp \<lparr> path = p, end_opt = e, component = Single thunk \<rparr>) w
     = (case thunk w of
          Fulfilled view \<Rightarrow> Fulfilled [(''default'', view)]
        | Rejected t r \<Rightarrow> Rejected t r
        | Pending \<Rightarrow> Pending)"
  by (simp add: toRouteHandler_def split: settlement.split)

section \<open>Match selection\<close>

lemma RouteOutlet_routeHandlers_order:
  "length (RouteOutlet_routeHandlers pathToRegexp us) = length us
   \<and> (\<forall>i<length us. RouteOutlet_routeHandlers pathToRegexp us ! i = toRouteHandler pathToRegexp (us ! i))"
  by (simp add: RouteOutlet_routeHandlers_def)

lemma find_as_filter: "find P xs = (case filter P xs of [] \<Rightarrow> None | x # ys \<Rightarrow> Some x)"
  by (induction xs) simp_all

text \<open>
  C2. \<^verbatim>\<open>computeOutlet\<close> selects the handler with the lowest index whose expression
  matches the path, and none exactly when no expression matches. A table that keeps the
  matching handlers in the same order (only handlers that do not match the path are
  moved, added or removed) selects the same handler.
\<close>

theorem findRouteHandler_first_match:
  "(findRouteHandler hs p = Some h \<longleftrightarrow>
      (\<exists>i<length hs. hs ! i = h \<and> test (pathRegExp h) p
         \<and> (\<forall>j<i. \<not> test (pathRegExp (hs ! j)) p)))
   \<and> (findRouteHandler hs p = None \<longleftrightarrow> (\<forall>h\<in>set hs. \<not> test (pathRegExp h) p))
   \<and> (filter (\<lambda>h. test (pathRegExp h) p) hs' = filter (\<lambda>h. test (pathRegExp h) p) hs
        \<longrightarrow> findRouteHandler hs' p = findRouteHandler hs p)"
proof (intro conjI impI)
  show "findRouteHandler hs p = Some h \<longleftrightarrow>
      (\<exists>i<length hs. hs ! i = h \<and> test (pathRegExp h) p
         \<and> (\<forall>j<i. \<not> test (pathRegExp (hs ! j)) p))"
    unfolding findRouteHandler_def find_Some_iff by auto
  show "findRouteHandler hs p = None \<longleftrightarrow> (\<forall>h\<in>set hs. \<not> test (pathRegExp h) p)"
    unfolding findRouteHandler_def find_None_iff by auto
  assume "filter (\<lambda>h. test (pathRegExp h) p) hs' = filter (\<lambda>h. test (pathRegExp h) p) hs"
  then show "findRouteHandler hs' p = findRouteHandler hs p"
    unfolding findRouteHandler_def find_as_filter by simp
qed

lemma test_routeA_c: "\<not> test (pathRegExp routeA) ''/c''"
  by (simp add: routeA_def toRouteHandler_def literalRegExp_def test_def)

lemma test_routeStar_c: "test (pathRegExp routeStar) ''/c''"
  by (simp add: routeStar_def toRouteHandler_def test_def)

theorem findRouteHandler_first_match_witness:
  "findRouteHandler [routeA, routeStar, routeC] ''/c'' = Some routeStar
   \<and> findRouteHandler [routeStar, routeC, routeA] ''/c''
       = findRouteHandler [routeA, routeStar, routeC] ''/c''"
proof -
  have sel: "\<exists>i<length [routeA, routeStar, routeC]. [routeA, routeStar, routeC] ! i = routeStar
      \<and> test (pathRegExp routeStar) ''/c''
      \<and> (\<forall>j<i. \<not> test (pathRegExp ([routeA, routeStar, routeC] ! j)) ''/c'')"
    by (rule exI [of _ 1]) (simp add: test_routeA_c test_routeStar_c)
  have same: "filter (\<lambda>h. test (pathRegExp h) ''/c'') [routeStar, routeC, routeA]
      = filter (\<lambda>h. test (pathRegExp h) ''/c'') [routeA, routeStar, routeC]"
    by (simp add: test_routeA_c)
  from findRouteHandler_first_match
    [of "[routeA, routeStar, routeC]" "''/c''" routeStar "[routeStar, routeC, routeA]"] sel same
  show ?thesis by blast
qed

section \<open>Rendering\<close>

text \<open>
  C9. \<^verbatim>\<open>render\<close> gives the composed component the whole of \<^verbatim>\<open>state.outlets\<close> as its
  \<^verbatim>\<open>outlets\<close> prop, every key with its element, the key \<^verbatim>\<open>default\<close> among them, and as
  its children the element under \<^verbatim>\<open>default\<close> when there is one.
\<close>

theorem render_outlets_and_children:
  "outletsProp (render c props s) = outlets s
   \<and> (\<forall>k. map_of (outletsProp (render c props s)) k = map_of (outlets s) k)
   \<and> children (render c props s) = map_of (outlets s) ''default''
   \<and> composedType (render c props s) = c
   \<and> ownProps (render c props s) = props"
  by (simp add: render_def)

section \<open>No match\<close>

text \<open>
  C4. When no handler's expression matches the path, \<^verbatim>\<open>computeOutlet\<close> returns at once
  with \<^verbatim>\<open>state.outlets\<close> set to the empty object: no promise chain is left behind,
  nothing is reported and nothing is thrown. The assignment is made whatever the session
  counter is and whatever chains are in flight; the counter itself has moved on by one.
\<close>

theorem computeOutlet_no_match:
  assumes "\<forall>h\<in>set hs. \<not> test (pathRegExp h) p"
  shows "computeOutlet hs w p s = s\<lparr>currentZoneID := currentZoneID s + 1, outlets := []\<rparr>
    \<and> outlets (computeOutlet hs w p s) = []
    \<and> tasks (computeOutlet hs w p s) = tasks s
    \<and> console (computeOutlet hs w p s) = console s
    \<and> uncaught (computeOutlet hs w p s) = uncaught s"
proof -
  from assms have "findRouteHandler hs p = None"
    by (simp add: findRouteHandler_def find_None_iff)
  then show ?thesis
    by (simp add: computeOutlet_def)
qed

lemma test_routeA_root: "\<not> test (pathRegExp routeA) ''/''"
  by (simp add: routeA_def toRouteHandler_def literalRegExp_def test_def)

lemma test_routeC_root: "\<not> test (pathRegExp routeC) ''/''"
  by (simp add: routeC_def toRouteHandler_def literalRegExp_def test_def)

theorem computeOutlet_no_match_witness:
  "computeOutlet [routeA, routeC] True ''/''
     \<lparr> currentZoneID = 1, outlets = [(''default'', PathProvider [] (Element ''A'' []))],
       console = [], tasks = [], uncaught = [] \<rparr>
   = \<lparr> currentZoneID = 2, outlets = [], console = [], tasks = [], uncaught = [] \<rparr>"
proof -
  have none: "\<forall>h\<in>set [routeA, routeC]. \<not> test (pathRegExp h) ''/''"
    by (simp add: test_routeA_root test_routeC_root)
  from computeOutlet_no_match [OF none, of True
    "\<lparr> currentZoneID = 1, outlets = [(''default'', PathProvider [] (Element ''A'' []))],
       console = [], tasks = [], uncaught = [] \<rparr>"]
  show ?thesis by simp
qed

section \<open>Objects built key by key\<close>



lemma setParams_too_many: "length ks < length ms \<Longrightarrow> setParams ks ms acc = Inl TypeError"
  by (induction ks ms acc rule: setParams.induct) simp_all



section \<open>Parameters and the rest of the path\<close>





lemma onFulfilled_too_many_captures:
  assumes "zone = currentZoneID s"
    and "exec (pathRegExp h) p = Some (m, caps)"
    and "length (keys (pathRegExp h)) < length caps"
  shows "onFulfilled zone p h components s = Inl TypeError"
  using assms by (simp add: onFulfilled_def setParams_too_many)












section \<open>Sessions\<close>

lemma currentZoneID_computeOutlet:
  "currentZoneID (computeOutlet hs w p s) = currentZoneID s + 1"
  by (simp add: computeOutlet_def Let_def split: option.split)

lemma onFulfilled_stale:
  "zone \<noteq> currentZoneID s \<Longrightarrow> onFulfilled zone p h components s = Inr s"
  by (simp add: onFulfilled_def)

lemma onFulfilled_fields:
  assumes "onFulfilled zone p h components s = Inr s'"
  shows "currentZoneID s' = currentZoneID s \<and> console s' = console s
    \<and> tasks s' = tasks s \<and> uncaught s' = uncaught s"
  using assms
  by (auto simp: onFulfilled_def Let_def split: if_splits option.splits sum.splits)

lemma onRejected_fields:
  assumes "onRejected zone e s = Inr s'"
  shows "currentZoneID s' = currentZoneID s \<and> tasks s' = tasks s \<and> uncaught s' = uncaught s"
  using assms
  by (auto simp: onRejected_def Let_def split: reason.splits if_splits)

lemma onRejected_stale:
  assumes "zone \<noteq> currentZoneID s" and "onRejected zone e s = Inr s'"
  shows "outlets s' = outlets s"
  using assms
  by (auto simp: onRejected_def Let_def split: reason.splits if_splits)

lemma currentZoneID_settle: "currentZoneID (settle z s) = currentZoneID s"
  by (auto simp: settle_def split: option.split settlement.split sum.split
      dest: onFulfilled_fields onRejected_fields)

lemma find_zoneID: "find (\<lambda>t. zoneID t = z) ts = Some t \<Longrightarrow> zoneID t = z"
  by (auto simp: find_Some_iff)

lemma settle_stale_outlets:
  assumes "z \<noteq> currentZoneID s"
  shows "outlets (settle z s) = outlets s"
proof (cases "find (\<lambda>t. zoneID t = z) (tasks s)")
  case None
  then show ?thesis by (simp add: settle_def)
next
  case (Some t)
  then have "zoneID t = z" by (rule find_zoneID)
  with assms have stale: "zoneID t \<noteq> currentZoneID s" by simp
  show ?thesis
  proof (cases "promise t")
    case (Fulfilled components)
    with Some stale show ?thesis
      by (simp add: settle_def onFulfilled_stale)
  next
    case (Rejected i e)
    with Some stale show ?thesis
      by (auto simp: settle_def split: sum.split dest: onRejected_stale)
  next
    case Pending
    with Some show ?thesis by (simp add: settle_def)
  qed
qed

lemma currentZoneID_step: "currentZoneID s \<le> currentZoneID (step hs ev s)"
  by (cases ev) (simp_all add: currentZoneID_computeOutlet currentZoneID_settle)

lemma currentZoneID_run: "currentZoneID s \<le> currentZoneID (run hs es s)"
proof (induction es arbitrary: s)
  case Nil
  then show ?case by (simp add: run_def)
next
  case (Cons ev es)
  have "currentZoneID s \<le> currentZoneID (step hs ev s)"
    by (rule currentZoneID_step)
  also have "\<dots> \<le> currentZoneID (run hs es (step hs ev s))"
    by (rule Cons.IH)
  finally show ?case by (simp add: run_def)
qed

lemma tasks_computeOutlet_match:
  assumes "findRouteHandler hs p = Some h"
  shows "tasks (computeOutlet hs w p s) = tasks s @
    [\<lparr> zoneID = currentZoneID s + 1, taskPath = p, routeHandler = h,
       promise = getComponents h w \<rparr>]"
  using assms by (simp add: computeOutlet_def)

text \<open>
  C1. Every call of \<^verbatim>\<open>computeOutlet\<close> takes the session counter one further and the
  counter never goes back, so the identifier of a call is greater than the counter was
  at any earlier moment, and it is the current one when the call returns; the promise
  chain the call leaves carries that identifier. A chain whose components have loaded
  while its identifier is no longer the current one changes nothing at all. Hence, when
  \<^verbatim>\<open>computeOutlet(p1)\<close> is followed, after whatever else happens, by \<^verbatim>\<open>computeOutlet(p2)\<close>,
  the identifier of the first call is below the counter from then on, and whenever its
  chain runs (fulfilled or rejected), \<^verbatim>\<open>state.outlets\<close> stays what it was.
\<close>

theorem session_currency:
  "currentZoneID (computeOutlet hs w p s) = currentZoneID s + 1
   \<and> currentZoneID s0 < currentZoneID (computeOutlet hs w p (run hs es s0))
   \<and> (findRouteHandler hs p = Some h \<longrightarrow>
        zoneID (last (tasks (computeOutlet hs w p s))) = currentZoneID (computeOutlet hs w p s))
   \<and> (zone \<noteq> currentZoneID s' \<longrightarrow> onFulfilled zone p' h' components s' = Inr s')
   \<and> (let s1 = computeOutlet hs w1 p1 s;
           s2 = run hs es' (computeOutlet hs w2 p2 (run hs es s1))
       in currentZoneID s1 < currentZoneID s2
          \<and> outlets (settle (currentZoneID s1) s2) = outlets s2)"
proof (intro conjI impI)
  show "currentZoneID (computeOutlet hs w p s) = currentZoneID s + 1"
    by (rule currentZoneID_computeOutlet)
  have "currentZoneID s0 \<le> currentZoneID (run hs es s0)"
    by (rule currentZoneID_run)
  then show "currentZoneID s0 < currentZoneID (computeOutlet hs w p (run hs es s0))"
    by (simp add: currentZoneID_computeOutlet)
next
  assume "findRouteHandler hs p = Some h"
  then show "zoneID (last (tasks (computeOutlet hs w p s))) = currentZoneID (computeOutlet hs w p s)"
    by (simp add: tasks_computeOutlet_match currentZoneID_computeOutlet)
next
  assume "zone \<noteq> currentZoneID s'"
  then show "onFulfilled zone p' h' components s' = Inr s'"
    by (rule onFulfilled_stale)
next
  define s1 where "s1 = computeOutlet hs w1 p1 s"
  define s2 where "s2 = run hs es' (computeOutlet hs w2 p2 (run hs es s1))"
  have "currentZoneID s1 \<le> currentZoneID (run hs es s1)"
    by (rule currentZoneID_run)
  then have "currentZoneID s1 < currentZoneID (computeOutlet hs w2 p2 (run hs es s1))"
    by (simp add: currentZoneID_computeOutlet)
  also have "\<dots> \<le> currentZoneID s2"
    unfolding s2_def by (rule currentZoneID_run)
  finally have less: "currentZoneID s1 < currentZoneID s2" .
  then have "outlets (settle (currentZoneID s1) s2) = outlets s2"
    by (intro settle_stale_outlets) simp
  with less show "let s1 = computeOutlet hs w1 p1 s;
           s2 = run hs es' (computeOutlet hs w2 p2 (run hs es s1))
       in currentZoneID s1 < currentZoneID s2
          \<and> outlets (settle (currentZoneID s1) s2) = outlets s2"
    by (simp add: s1_def s2_def Let_def)
qed

lemma exec_routeA_a: "exec (pathRegExp routeA) ''/a'' = Some (''/a'', [])"
  by (simp add: routeA_def toRouteHandler_def literalRegExp_def)

lemma exec_routeA_c: "exec (pathRegExp routeA) ''/c'' = None"
  by (simp add: routeA_def toRouteHandler_def literalRegExp_def)

lemma exec_routeC_c: "exec (pathRegExp routeC) ''/c'' = Some (''/c'', [])"
  by (simp add: routeC_def toRouteHandler_def literalRegExp_def)

lemma keys_routeC: "keys (pathRegExp routeC) = []"
  by (simp add: routeC_def toRouteHandler_def literalRegExp_def)

lemma getComponents_routeA: "getComponents routeA w = Fulfilled [(''default'', ''A'')]"
  by (simp add: routeA_def toRouteHandler_def)

lemma getComponents_routeC: "getComponents routeC w = Fulfilled [(''default'', ''C'')]"
  by (simp add: routeC_def toRouteHandler_def)

lemma find_routeA_a:
  "findRouteHandler [routeA, routeC] ''/a'' = Some routeA"
  by (simp add: findRouteHandler_def test_def exec_routeA_a)

lemma find_routeC_c: "findRouteHandler [routeA, routeC] ''/c'' = Some routeC"
  by (simp add: findRouteHandler_def test_def exec_routeA_c exec_routeC_c)

lemma lateA_eq:
  "lateA = \<lparr> currentZoneID = 2,
      outlets = [(''default'', PathProvider [] (Element ''C'' []))],
      console = [],
      tasks = [\<lparr> zoneID = 1, taskPath = ''/a'', routeHandler = routeA,
                 promise = Fulfilled [(''default'', ''A'')] \<rparr>],
      uncaught = [] \<rparr>"
  by (simp add: lateA_def run_def computeOutlet_def find_routeA_a find_routeC_c initial_def
      getComponents_routeA getComponents_routeC settle_def onFulfilled_def exec_routeC_c
      keys_routeC setOutlets_def providePath_def createElement_def)

theorem session_currency_witness:
  "currentZoneID (computeOutlet [routeA, routeC] True ''/a'' initial) = 1
   \<and> zoneID (last (tasks (computeOutlet [routeA, routeC] True ''/a'' initial))) = 1
   \<and> onFulfilled 1 ''/a'' routeA [(''default'', ''A'')] lateA = Inr lateA
   \<and> outlets (settle 1 lateA) = [(''default'', PathProvider [] (Element ''C'' []))]"
proof -
  have stale: "1 \<noteq> currentZoneID lateA"
    by (simp add: lateA_eq)
  have one: "currentZoneID (computeOutlet [routeA, routeC] True ''/a'' (initial :: (bool, string) RouteOutlet)) = 1"
    by (simp add: currentZoneID_computeOutlet initial_def)
  from session_currency [where hs = "[routeA, routeC]" and w = True and p = "''/a''"
      and s = initial and ?s0.0 = initial and es = "[]" and h = routeA and zone = 1
      and s' = lateA and p' = "''/a''" and h' = routeA
      and components = "[(''default'', ''A'')]" and ?w1.0 = True and ?p1.0 = "''/a''"
      and ?w2.0 = True and ?p2.0 = "''/c''" and es' = "[Settle 2]"]
    find_routeA_a stale
  show ?thesis
    by (simp add: Let_def one lateA_def [symmetric]) (simp add: lateA_eq)
qed

section \<open>Chains in flight\<close>

lemma wellformed_initial: "wellformed initial"
  by (simp add: wellformed_def list_all_iff initial_def)

lemma wellformed_computeOutlet:
  assumes "wellformed s"
  shows "wellformed (computeOutlet hs w p s)"
proof (cases "findRouteHandler hs p")
  case None
  with assms show ?thesis
    by (auto simp: wellformed_def list_all_iff computeOutlet_def)
next
  case (Some h)
  from assms have "currentZoneID s + 1 \<notin> zoneID ` set (tasks s)"
    by (auto simp: wellformed_def list_all_iff)
  with assms Some show ?thesis
    by (auto simp: wellformed_def list_all_iff computeOutlet_def)
qed

lemma zoneID_tasks_settle:
  "\<exists>P. map zoneID (tasks (settle z s)) = filter P (map zoneID (tasks s))"
proof (cases "find (\<lambda>t. zoneID t = z) (tasks s)")
  case None
  then have "map zoneID (tasks (settle z s)) = filter (\<lambda>x. True) (map zoneID (tasks s))"
    by (simp add: settle_def)
  then show ?thesis by blast
next
  case (Some t)
  have same: "map zoneID (map (\<lambda>t'. if zoneID t' = z then t'\<lparr>promise := q\<rparr> else t') ts)
      = filter (\<lambda>x. True) (map zoneID ts)" for q and ts :: "('a, 'b) task list"
    by (induction ts) auto
  have removed: "map zoneID (filter (\<lambda>t'. zoneID t' \<noteq> z) ts) = filter (\<lambda>x. x \<noteq> z) (map zoneID ts)"
    for ts :: "('a, 'b) task list"
    by (induction ts) auto
  show ?thesis
  proof (cases "promise t")
    case (Fulfilled components)
    show ?thesis
    proof (cases "onFulfilled (zoneID t) (taskPath t) (routeHandler t) components s")
      case (Inl e)
      with Some Fulfilled same show ?thesis
        by (auto simp: settle_def simp del: filter_True)
    next
      case (Inr s')
      then have "tasks s' = tasks s" by (simp add: onFulfilled_fields)
      with Some Fulfilled Inr removed show ?thesis
        by (auto simp: settle_def)
    qed
  next
    case (Rejected i e)
    show ?thesis
    proof (cases "onRejected (zoneID t) e s")
      case (Inl e')
      with Some Rejected removed show ?thesis
        by (auto simp: settle_def)
    next
      case (Inr s')
      then have "tasks s' = tasks s" by (simp add: onRejected_fields)
      with Some Rejected Inr removed show ?thesis
        by (auto simp: settle_def)
    qed
  next
    case Pending
    with Some have "map zoneID (tasks (settle z s)) = filter (\<lambda>x. True) (map zoneID (tasks s))"
      by (simp add: settle_def)
    then show ?thesis by blast
  qed
qed

lemma wellformed_settle:
  assumes "wellformed s"
  shows "wellformed (settle z s)"
proof -
  obtain P where P: "map zoneID (tasks (settle z s)) = filter P (map zoneID (tasks s))"
    using zoneID_tasks_settle by blast
  from assms have "distinct (filter P (map zoneID (tasks s)))"
    by (simp add: wellformed_def list_all_iff)
  moreover have "\<forall>x\<in>set (filter P (map zoneID (tasks s))). x \<le> currentZoneID s"
    using assms by (auto simp: wellformed_def list_all_iff)
  ultimately have "distinct (map zoneID (tasks (settle z s)))"
    and "\<forall>x\<in>set (map zoneID (tasks (settle z s))). x \<le> currentZoneID (settle z s)"
    by (simp_all only: P currentZoneID_settle)
  then show ?thesis
    by (simp add: wellformed_def list_all_iff)
qed

text \<open>
  In every state an instance can reach, the chains in flight carry different session
  identifiers, none above the counter: \<open>Settle z\<close> names one chain.
\<close>

lemma wellformed_run: "wellformed s \<Longrightarrow> wellformed (run hs es s)"
proof (induction es arbitrary: s)
  case Nil
  then show ?case by (simp add: run_def)
next
  case (Cons ev es)
  have "wellformed (step hs ev s)"
    using Cons.prems by (cases ev) (simp_all add: wellformed_computeOutlet wellformed_settle)
  then have "wellformed (run hs es (step hs ev s))" by (rule Cons.IH)
  then show ?case by (simp add: run_def)
qed

section \<open>Joining the thunks of a named route\<close>











section \<open>Rejections\<close>

lemma onRejected_NonNull:
  "onRejected zone (NonNull st) s =
     Inr (if zone = currentZoneID s then s\<lparr>console := console s @ [st], outlets := []\<rparr>
          else s\<lparr>console := console s @ [st]\<rparr>)"
  by (simp add: onRejected_def Let_def)


lemma settle_rejected_NonNull:
  assumes "find (\<lambda>t. zoneID t = z) (tasks s) = Some t"
    and "promise t = Rejected i (NonNull st)"
  shows "outlets (settle z s) = (if z = currentZoneID s then [] else outlets s)
    \<and> console (settle z s) = console s @ [st]
    \<and> uncaught (settle z s) = uncaught s"
proof -
  from assms(1) have "zoneID t = z" by (rule find_zoneID)
  with assms show ?thesis
    by (simp add: settle_def onRejected_NonNull)
qed







lemma keys_routeA: "keys (pathRegExp routeA) = []"
  by (simp add: routeA_def toRouteHandler_def literalRegExp_def)





section \<open>A rejection with no reason\<close>

lemma exec_routeUndefined_b: "exec (pathRegExp routeUndefined) ''/b'' = Some (''/b'', [])"
  by (simp add: routeUndefined_def toRouteHandler_def literalRegExp_def)

lemma exec_routeUndefined_a: "exec (pathRegExp routeUndefined) ''/a'' = None"
  by (simp add: routeUndefined_def toRouteHandler_def literalRegExp_def)

lemma exec_routeA_b: "exec (pathRegExp routeA) ''/b'' = None"
  by (simp add: routeA_def toRouteHandler_def literalRegExp_def)

lemma getComponents_routeUndefined: "getComponents routeUndefined w = Rejected 0 Nullish"
  by (simp add: routeUndefined_def toRouteHandler_def)

lemma find_routeUndefined_b: "findRouteHandler [routeA, routeUndefined] ''/b'' = Some routeUndefined"
  by (simp add: findRouteHandler_def test_def exec_routeA_b exec_routeUndefined_b)

lemma find_routeUndefined_a: "findRouteHandler [routeA, routeUndefined] ''/a'' = Some routeA"
  by (simp add: findRouteHandler_def test_def exec_routeA_a)

text \<open>
  C7 at a loader that rejects with \<^verbatim>\<open>undefined\<close>. The outlet shows \<^verbatim>\<open>/a\<close>; then the path
  becomes \<^verbatim>\<open>/b\<close>, whose loader rejects with no reason while its session is current. The
  \<^verbatim>\<open>catch\<close> callback throws at \<^verbatim>\<open>error.stack\<close>: nothing reaches \<^verbatim>\<open>console.error\<close>, the outlets
  are not emptied (the element of \<^verbatim>\<open>/a\<close> stays), and the \<^verbatim>\<open>TypeError\<close> leaves the chain
  unhandled.
\<close>

theorem rejection_with_undefined_escapes:
  "getComponents routeUndefined True = Rejected 0 Nullish
   \<and> run [routeA, routeUndefined]
       [ComputeOutlet ''/a'' True, Settle 1, ComputeOutlet ''/b'' True, Settle 2] initial
     = \<lparr> currentZoneID = 2, outlets = [(''default'', PathProvider [] (Element ''A'' []))],
         console = [], tasks = [], uncaught = [TypeError] \<rparr>"
  by (simp add: run_def computeOutlet_def find_routeUndefined_a find_routeUndefined_b initial_def
      getComponents_routeUndefined getComponents_routeA settle_def onFulfilled_def onRejected_def
      exec_routeA_a keys_routeA setOutlets_def providePath_def createElement_def)

text \<open>
  C10 at a loader that rejects with \<^verbatim>\<open>undefined\<close>. The session of \<^verbatim>\<open>/b\<close> is superseded by
  a call for \<^verbatim>\<open>/a\<close> before its loader rejects. The \<^verbatim>\<open>catch\<close> callback throws at
  \<^verbatim>\<open>error.stack\<close>, before \<^verbatim>\<open>console.error\<close> is called: the failure of the superseded
  session is not reported.
\<close>

theorem stale_rejection_with_undefined_not_reported:
  "getComponents routeUndefined True = Rejected 0 Nullish
   \<and> run [routeA, routeUndefined]
       [ComputeOutlet ''/b'' True, ComputeOutlet ''/a'' True, Settle 1] initial
     = \<lparr> currentZoneID = 2, outlets = [], console = [],
         tasks = [\<lparr> zoneID = 2, taskPath = ''/a'', routeHandler = routeA,
                    promise = Fulfilled [(''default'', ''A'')] \<rparr>],
         uncaught = [TypeError] \<rparr>"
  by (simp add: run_def computeOutlet_def find_routeUndefined_a find_routeUndefined_b initial_def
      getComponents_routeUndefined getComponents_routeA settle_def onRejected_def)

text \<open>
  For every other reason the \<^verbatim>\<open>catch\<close> callback does what C7 and C10 say: it reports
  the reason's \<^verbatim>\<open>stack\<close> whatever the session, empties the outlets only when the session
  is current, and ends without throwing.
\<close>

lemma rejection_reported_unless_nullish:
  assumes "find (\<lambda>t. zoneID t = z) (tasks s) = Some t"
    and "promise t = Rejected i (NonNull st)"
  shows "console (settle z s) = console s @ [st]
    \<and> outlets (settle z s) = (if z = currentZoneID s then [] else outlets s)
    \<and> uncaught (settle z s) = uncaught s
    \<and> currentZoneID (settle z s) = currentZoneID s"
  using settle_rejected_NonNull [OF assms] by (simp add: currentZoneID_settle)

end
